theory Spec2Isabelle
  imports Complex_Main "HOL-Library.Word" "HOL-Library.Signed_Division"
begin

section \<open>Machine integers and library primitives\<close>

text \<open>
  Go's \<open>int64\<close> (and \<open>time.Duration\<close>, which is an \<open>int64\<close> count of
  nanoseconds) is a 64-bit word read in two's complement. Go's \<open>int\<close> is taken at its
  64-bit width. Addition and subtraction wrap; comparison and division are signed, and
  division truncates towards zero.
\<close>

type_synonym int64 = "64 word"
type_synonym duration = "64 word"

definition sdiv64 :: "int64 \<Rightarrow> int64 \<Rightarrow> int64" where
  "sdiv64 a b = word_of_int (sint a sdiv sint b)"

text \<open>\<open>time.Duration.Milliseconds\<close>: \<open>int64(d) / 1e6\<close>.\<close>

definition Milliseconds :: "duration \<Rightarrow> int64" where
  "Milliseconds d = sdiv64 d 1000000"

text \<open>\<open>strings.HasPrefix\<close> and \<open>strings.Contains\<close> on byte strings.\<close>

fun HasPrefix :: "string \<Rightarrow> string \<Rightarrow> bool" where
  "HasPrefix s [] = True"
| "HasPrefix [] (p # ps) = False"
| "HasPrefix (c # cs) (p # ps) = (c = p \<and> HasPrefix cs ps)"

fun Contains :: "string \<Rightarrow> string \<Rightarrow> bool" where
  "Contains [] sub = (sub = [])"
| "Contains (c # cs) sub = (HasPrefix (c # cs) sub \<or> Contains cs sub)"

text \<open>
  A Go \<open>error\<close> value as the runner looks at it: whether \<open>os.IsTimeout\<close> holds of it
  and the text of \<open>err.Error()\<close>.
\<close>

record go_error =
  is_timeout :: bool
  message :: string

section \<open>The record schema (internal/attack/trace.go)\<close>

record PhaseTimings =
  DNS :: duration
  Connect :: duration
  TLS :: duration
  TTFB :: duration
  Total :: duration

text \<open>\<open>Timestamp\<close> is a \<open>time.Time\<close>; only its instant (nanoseconds) is kept.\<close>

record Result =
  Timestamp :: int
  Code :: int64
  Error :: string
  FailPhase :: string
  Reused :: bool
  Phases :: PhaseTimings

definition zeroPhases :: PhaseTimings where
  "zeroPhases = \<lparr>DNS = 0, Connect = 0, TLS = 0, TTFB = 0, Total = 0\<rparr>"

definition zeroResult :: Result where
  "zeroResult = \<lparr>Timestamp = 0, Code = 0, Error = [], FailPhase = [],
     Reused = False, Phases = zeroPhases\<rparr>"

section \<open>Error classification\<close>

text \<open>
  The repository holds the runner in two versions: the one with live statistics and a
  progress log (\<open>src/unnamed/part_002\<close>) and an earlier one without them
  (\<open>src/unnamed/part_001\<close>). They differ in \<open>classifyError\<close> and \<open>doRequest\<close>;
  the earlier definitions carry the suffix \<open>_v1\<close>.
\<close>

text \<open>\<open>classifyError\<close> of the runner with live statistics (six labels).\<close>

definition classifyError :: "go_error \<Rightarrow> string" where
  "classifyError err =
     (let msg = message err in
      if is_timeout err then ''timeout''
      else if Contains msg ''no such host'' then ''dns''
      else if Contains msg ''connection refused'' \<or> Contains msg ''connect'' then ''connect''
      else if Contains msg ''tls'' then ''tls''
      else if Contains msg ''EOF'' \<or> Contains msg ''read'' then ''ttfb''
      else ''other'')"

text \<open>\<open>classifyError\<close> of the earlier runner (no first-byte label).\<close>

definition classifyError_v1 :: "go_error \<Rightarrow> string" where
  "classifyError_v1 err =
     (if is_timeout err then ''timeout''
      else if Contains (message err) ''no such host'' then ''dns''
      else if Contains (message err) ''connection refused'' then ''connect''
      else if Contains (message err) ''tls'' then ''tls''
      else ''other'')"

text \<open>
  The failure taxonomy as the specification words it: six labels in matching order, and
  a classification by the first rule that matches, with a label for what no rule matches.
  \<open>taxonomyRules\<close> pairs each label but the last with the test the runner applies.
\<close>

definition taxonomy :: "string list" where
  "taxonomy = [''timeout'', ''dns'', ''connect'', ''tls'', ''ttfb'', ''other'']"



section \<open>The request tracer\<close>

text \<open>
  The \<open>httptrace\<close> hooks of \<open>doRequest\<close> are callbacks that the HTTP client
  fires while \<open>client.Do\<close> runs. One call of \<open>client.Do\<close> is described by the
  hooks it fired, in order, each with the reading of \<open>time.Since(start)\<close> taken inside
  the hook, by what it returned (an error, or a response with its status code), and by the
  reading of \<open>time.Since(start)\<close> taken after it returned. Each hook is taken to run
  to its end before the next one starts.
\<close>

datatype trace_event =
    GotConn bool
  | DNSStart
  | DNSDone
  | ConnectStart
  | ConnectDone bool
  | TLSHandshakeStart
  | TLSHandshakeDone
  | GotFirstResponseByte

record http_call =
  fired :: "(trace_event \<times> duration) list"
  returned :: "go_error + int64"
  elapsed :: duration

text \<open>
  The state the hooks close over: \<open>phases\<close> and \<open>reused\<close>. \<open>ConnectDone\<close>
  carries whether its \<open>err\<close> argument is \<open>nil\<close>.
\<close>

fun hook :: "PhaseTimings \<times> bool \<Rightarrow> trace_event \<times> duration \<Rightarrow> PhaseTimings \<times> bool" where
  "hook (phases, reused) (GotConn r, now) = (phases, r)"
| "hook (phases, reused) (DNSStart, now) = (phases\<lparr>DNS := now\<rparr>, reused)"
| "hook (phases, reused) (DNSDone, now) = (phases\<lparr>DNS := now - DNS phases\<rparr>, reused)"
| "hook (phases, reused) (ConnectStart, now) = (phases\<lparr>Connect := now\<rparr>, reused)"
| "hook (phases, reused) (ConnectDone ok, now) =
     (if ok then (phases\<lparr>Connect := now - Connect phases\<rparr>, reused) else (phases, reused))"
| "hook (phases, reused) (TLSHandshakeStart, now) = (phases\<lparr>TLS := now\<rparr>, reused)"
| "hook (phases, reused) (TLSHandshakeDone, now) = (phases\<lparr>TLS := now - TLS phases\<rparr>, reused)"
| "hook (phases, reused) (GotFirstResponseByte, now) = (phases\<lparr>TTFB := now\<rparr>, reused)"

text \<open>
  \<open>doRequest\<close> of the runner with live statistics. \<open>start\<close> is \<open>time.Now()\<close>
  at entry. On an error both \<open>Error\<close> and \<open>FailPhase\<close> receive the label.
\<close>

definition doRequest :: "int \<Rightarrow> http_call \<Rightarrow> Result" where
  "doRequest start call =
     (let (phases, reused) = foldl hook (zeroPhases, False) (fired call);
          res = zeroResult\<lparr>Timestamp := start, Phases := phases\<lparr>Total := elapsed call\<rparr>,
                  Reused := reused\<rparr>
      in case returned call of
           Inl err \<Rightarrow> (let res' = res\<lparr>Error := classifyError err\<rparr>
                       in res'\<lparr>FailPhase := Error res'\<rparr>)
         | Inr st \<Rightarrow> res\<lparr>Code := st\<rparr>)"

text \<open>\<open>doRequest\<close> of the earlier runner: on an error only \<open>Error\<close> is assigned.\<close>

definition doRequest_v1 :: "int \<Rightarrow> http_call \<Rightarrow> Result" where
  "doRequest_v1 start call =
     (let (phases, reused) = foldl hook (zeroPhases, False) (fired call);
          res = zeroResult\<lparr>Timestamp := start, Phases := phases\<lparr>Total := elapsed call\<rparr>,
                  Reused := reused\<rparr>
      in case returned call of
           Inl err \<Rightarrow> res\<lparr>Error := classifyError_v1 err\<rparr>
         | Inr st \<Rightarrow> res\<lparr>Code := st\<rparr>)"

text \<open>
  The clock behind \<open>time.Since(start)\<close> is monotonic: \<open>clock_ok now evs\<close> says
  that the readings of the hooks in \<open>evs\<close> never decrease, starting from \<open>now\<close>.
  \<open>fires e call\<close> says that the hook event \<open>e\<close> occurred during the call.
\<close>

fun clock_ok :: "duration \<Rightarrow> (trace_event \<times> duration) list \<Rightarrow> bool" where
  "clock_ok now [] = True"
| "clock_ok now ((e, t) # evs) = (now \<le>s t \<and> clock_ok t evs)"

definition fires :: "trace_event \<Rightarrow> http_call \<Rightarrow> bool" where
  "fires e call = (e \<in> fst ` set (fired call))"

definition phases_within :: "duration \<Rightarrow> PhaseTimings \<Rightarrow> bool" where
  "phases_within now p =
     (0 \<le>s now \<and> 0 \<le>s DNS p \<and> DNS p \<le>s now \<and> 0 \<le>s Connect p \<and> Connect p \<le>s now
      \<and> 0 \<le>s TLS p \<and> TLS p \<le>s now \<and> 0 \<le>s TTFB p \<and> TTFB p \<le>s now)"

text \<open>An example call: the connection is refused.\<close>

definition refusedCall :: http_call where
  "refusedCall =
     \<lparr>fired = [(ConnectStart, 1000), (ConnectDone False, 2000)],
      returned = Inl \<lparr>is_timeout = False,
                      message = ''dial tcp 127.0.0.1:9: connect: connection refused''\<rparr>,
      elapsed = 2500\<rparr>"

text \<open>An example call: a plain HTTP request answered with status 200.\<close>

definition plainCall :: http_call where
  "plainCall =
     \<lparr>fired = [(DNSStart, 1000), (DNSDone, 3000), (ConnectStart, 3500),
               (ConnectDone True, 9000), (GotConn False, 9100),
               (GotFirstResponseByte, 20000)],
      returned = Inr 200,
      elapsed = 21000\<rparr>"

section \<open>The live statistics collector\<close>

text \<open>
  \<open>failMap\<close> is a \<open>sync.Map\<close> from phase label to a counter cell. The atomic updates
  are modelled in the order the sink goroutine, their only caller, performs them.
\<close>

record StatsCollector =
  sent :: int64
  success :: int64
  fail :: int64
  failMap :: "string \<rightharpoonup> int64"
  totalLat :: int64
  twoXX :: int64
  threeXX :: int64
  fourXX :: int64
  fiveXX :: int64

definition newStats :: StatsCollector where
  "newStats = \<lparr>sent = 0, success = 0, fail = 0, failMap = Map.empty, totalLat = 0,
     twoXX = 0, threeXX = 0, fourXX = 0, fiveXX = 0\<rparr>"

text \<open>\<open>LoadOrStore(k, new(int64))\<close> followed by \<open>Load\<close> and an atomic increment.\<close>

definition bumpFail :: "(string \<rightharpoonup> int64) \<Rightarrow> string \<Rightarrow> (string \<rightharpoonup> int64)" where
  "bumpFail m k = (case m k of None \<Rightarrow> m(k \<mapsto> 1) | Some v \<Rightarrow> m(k \<mapsto> v + 1))"

definition countFamily :: "StatsCollector \<Rightarrow> int64 \<Rightarrow> StatsCollector" where
  "countFamily s code =
     (if 0 <s code then
        (let fam = sdiv64 code 100 in
         if fam = 2 then s\<lparr>twoXX := twoXX s + 1\<rparr>
         else if fam = 3 then s\<lparr>threeXX := threeXX s + 1\<rparr>
         else if fam = 4 then s\<lparr>fourXX := fourXX s + 1\<rparr>
         else if fam = 5 then s\<lparr>fiveXX := fiveXX s + 1\<rparr>
         else s)
      else s)"

definition StatsCollector_Add :: "StatsCollector \<Rightarrow> Result \<Rightarrow> StatsCollector" where
  "StatsCollector_Add s r =
     (let s1 = s\<lparr>sent := sent s + 1\<rparr> in
      if Error r \<noteq> [] then
        s1\<lparr>fail := fail s1 + 1, failMap := bumpFail (failMap s1) (FailPhase r)\<rparr>
      else
        countFamily
          (s1\<lparr>success := success s1 + 1,
               totalLat := totalLat s1 + Milliseconds (Total (Phases r))\<rparr>)
          (Code r))"

text \<open>
  Floating point. A \<open>float64\<close> is modelled by the real number it denotes, and every
  conversion and operation by the exact result followed by a rounding \<open>rnd\<close> to the
  representable values. The rounding is the hardware's and is taken as a parameter.
  \<open>f64_div rnd a b\<close> is \<open>float64(a) / float64(b)\<close> for two \<open>int64\<close> values.
\<close>

type_synonym float64 = real

definition f64_of_int64 :: "(real \<Rightarrow> real) \<Rightarrow> int64 \<Rightarrow> float64" where
  "f64_of_int64 rnd a = rnd (real_of_int (sint a))"

definition f64_div :: "(real \<Rightarrow> real) \<Rightarrow> int64 \<Rightarrow> int64 \<Rightarrow> float64" where
  "f64_div rnd a b = rnd (f64_of_int64 rnd a / f64_of_int64 rnd b)"

record StatsSnapshot =
  snap_sent :: int64
  snap_success :: int64
  snap_fail :: int64
  snap_avgLat :: float64
  snap_fails :: "string \<rightharpoonup> int64"
  snap_families :: "string \<rightharpoonup> int64"

text \<open>\<open>Snapshot\<close>: \<open>avgLat\<close> is a named result and stays zero unless assigned.\<close>

definition Snapshot :: "(real \<Rightarrow> real) \<Rightarrow> StatsCollector \<Rightarrow> StatsSnapshot" where
  "Snapshot rnd s =
     \<lparr>snap_sent = sent s, snap_success = success s, snap_fail = fail s,
      snap_avgLat = (if 0 <s success s then f64_div rnd (totalLat s) (success s) else 0),
      snap_fails = failMap s,
      snap_families = [''2xx'' \<mapsto> twoXX s, ''3xx'' \<mapsto> threeXX s,
                       ''4xx'' \<mapsto> fourXX s, ''5xx'' \<mapsto> fiveXX s]\<rparr>"

text \<open>The collector after a sequence of results, added in order to a fresh collector.\<close>

definition addAll :: "Result list \<Rightarrow> StatsCollector" where
  "addAll rs = foldl StatsCollector_Add newStats rs"

text \<open>
  The average latency as the specification words it: over the successful results of a
  sequence, the sum of their \<open>Total\<close> latencies divided by their number, and zero when
  there is none. \<open>Total\<close> counts nanoseconds, so \<open>averageTotal\<close> is in nanoseconds
  and \<open>averageTotalMs\<close> is the same average in milliseconds.
\<close>

definition successes :: "Result list \<Rightarrow> Result list" where
  "successes rs = filter (\<lambda>r. Error r = []) rs"

definition totalLatencySum :: "Result list \<Rightarrow> int" where
  "totalLatencySum rs = sum_list (map (\<lambda>r. sint (Total (Phases r))) (successes rs))"

definition averageTotal :: "Result list \<Rightarrow> real" where
  "averageTotal rs =
     (if successes rs = [] then 0
      else real_of_int (totalLatencySum rs) / real (length (successes rs)))"

definition averageTotalMs :: "Result list \<Rightarrow> real" where
  "averageTotalMs rs = averageTotal rs / 1000000"

text \<open>
  What the collector accumulates instead: \<open>Add\<close> passes each \<open>Total\<close> through
  \<open>Milliseconds\<close>, which truncates it to whole milliseconds, before adding it.
\<close>

definition truncatedMsSum :: "Result list \<Rightarrow> int" where
  "truncatedMsSum rs =
     sum_list (map (\<lambda>r. sint (Milliseconds (Total (Phases r)))) (successes rs))"

text \<open>
  Example sequences of results: two successes of 1.9 ms and 4 ms with one failure, and
  two successes of 1.9 ms each.
\<close>

definition threeResults :: "Result list" where
  "threeResults =
     [zeroResult\<lparr>Code := 200, Phases := zeroPhases\<lparr>Total := 1900000\<rparr>\<rparr>,
      zeroResult\<lparr>Error := ''timeout'', FailPhase := ''timeout'',
                  Phases := zeroPhases\<lparr>Total := 9000000000\<rparr>\<rparr>,
      zeroResult\<lparr>Code := 404, Phases := zeroPhases\<lparr>Total := 4000000\<rparr>\<rparr>]"

definition nearTwoMs :: "Result list" where
  "nearTwoMs =
     [zeroResult\<lparr>Code := 200, Phases := zeroPhases\<lparr>Total := 1900000\<rparr>\<rparr>,
      zeroResult\<lparr>Code := 200, Phases := zeroPhases\<lparr>Total := 1900000\<rparr>\<rparr>]"

section \<open>Configuration (package config)\<close>

record Target =
  URL :: string
  Method :: string
  Headers :: "(string \<times> string) list"
  BodyFile :: string

record LoadConfig =
  Rate :: int64
  Duration :: string
  Concurrency :: int64
  Timeout :: string
  DisableKeepAlive :: bool
  InsecureTLS :: bool
  HTTP2 :: bool

record Output =
  JSONLPath :: string

record Config =
  Target :: Target
  Load :: LoadConfig
  Output :: Output

definition DefaultConfig :: Config where
  "DefaultConfig =
     \<lparr>Target = \<lparr>URL = ''https://example.com'', Method = ''GET'',
                 Headers = [(''User-Agent'', ''shard/1.0'')], BodyFile = []\<rparr>,
      Load = \<lparr>Rate = 50, Duration = ''10s'', Concurrency = 256, Timeout = ''10s'',
               DisableKeepAlive = False, InsecureTLS = False, HTTP2 = True\<rparr>,
      Output = \<lparr>JSONLPath = ''results.jsonl''\<rparr>\<rparr>"



text \<open>
  The scheduler interval of \<open>Run\<close>: \<open>time.Second / time.Duration(rate)\<close>, an integer
  division that panics on a zero divisor (\<open>None\<close>).
\<close>

definition schedulerInterval :: "int64 \<Rightarrow> duration option" where
  "schedulerInterval rate = (if rate = 0 then None else Some (sdiv64 1000000000 rate))"






section \<open>The offline aggregator (internal/stats/aggregator.go)\<close>

definition PhaseNames :: "string list" where
  "PhaseNames = [''dns'', ''connect'', ''tls'', ''ttfb'', ''total'']"

record phaseStats =
  ps_Count :: int64
  ps_Sum :: float64
  ps_Min :: float64
  ps_Max :: float64

record Aggregator =
  count :: int64
  status :: "int64 \<rightharpoonup> int64"
  errors :: "string \<rightharpoonup> int64"
  stats :: "string \<rightharpoonup> phaseStats"
  failByPhase :: "string \<rightharpoonup> int64"
  statusFamily :: "string \<rightharpoonup> int64"

text \<open>\<open>New\<close>: empty maps, and one \<open>phaseStats\<close> with \<open>Min = 1e9\<close> per phase name.\<close>

definition New :: Aggregator where
  "New =
     \<lparr>count = 0, status = Map.empty, errors = Map.empty,
      stats = map_of (map (\<lambda>p. (p, \<lparr>ps_Count = 0, ps_Sum = 0, ps_Min = 1000000000,
                                      ps_Max = 0\<rparr>)) PhaseNames),
      failByPhase = Map.empty, statusFamily = Map.empty\<rparr>"

text \<open>\<open>m[k]++\<close> on a Go map: a missing key reads as zero.\<close>

definition incr :: "('k \<rightharpoonup> int64) \<Rightarrow> 'k \<Rightarrow> ('k \<rightharpoonup> int64)" where
  "incr m k = m(k \<mapsto> (case m k of None \<Rightarrow> 0 | Some v \<Rightarrow> v) + 1)"

text \<open>\<open>fmt.Sprintf("%dxx", fam)\<close> for the families \<open>2\<close> to \<open>5\<close> it is called with.\<close>

definition familyKey :: "int64 \<Rightarrow> string" where
  "familyKey fam =
     (if fam = 2 then ''2xx'' else if fam = 3 then ''3xx''
      else if fam = 4 then ''4xx'' else ''5xx'')"

text \<open>
  The closure \<open>update\<close> of \<open>Add\<close>. \<open>a.stats[phase]\<close> is a pointer; for a missing key
  it is \<open>nil\<close> and the increment panics (\<open>None\<close>).
\<close>

definition update :: "(real \<Rightarrow> real) \<Rightarrow> string \<Rightarrow> duration \<Rightarrow> Aggregator \<Rightarrow> Aggregator option" where
  "update rnd phase d a =
     (case stats a phase of
        None \<Rightarrow> None
      | Some ps \<Rightarrow>
          (let ms = f64_of_int64 rnd (Milliseconds d);
               ps1 = ps\<lparr>ps_Count := ps_Count ps + 1, ps_Sum := rnd (ps_Sum ps + ms)\<rparr>;
               ps2 = (if ms < ps_Min ps1 then ps1\<lparr>ps_Min := ms\<rparr> else ps1);
               ps3 = (if ms > ps_Max ps2 then ps2\<lparr>ps_Max := ms\<rparr> else ps2)
           in Some (a\<lparr>stats := (stats a)(phase \<mapsto> ps3)\<rparr>)))"

definition countStatus :: "Aggregator \<Rightarrow> int64 \<Rightarrow> Aggregator" where
  "countStatus a code =
     (if 0 <s code then
        (let a1 = a\<lparr>status := incr (status a) code\<rparr>; fam = sdiv64 code 100 in
         if 2 \<le>s fam \<and> fam \<le>s 5
         then a1\<lparr>statusFamily := incr (statusFamily a1) (familyKey fam)\<rparr>
         else a1)
      else a)"

definition Aggregator_Add :: "(real \<Rightarrow> real) \<Rightarrow> Aggregator \<Rightarrow> Result \<Rightarrow> Aggregator option" where
  "Aggregator_Add rnd a r =
     (let a1 = countStatus (a\<lparr>count := count a + 1\<rparr>) (Code r);
          a2 = (if Error r \<noteq> [] then a1\<lparr>errors := incr (errors a1) (Error r)\<rparr> else a1);
          a3 = (if FailPhase r \<noteq> [] then a2\<lparr>failByPhase := incr (failByPhase a2) (FailPhase r)\<rparr>
                else a2)
      in Option.bind (update rnd ''dns'' (DNS (Phases r)) a3)
           (\<lambda>a4. Option.bind (update rnd ''connect'' (Connect (Phases r)) a4)
           (\<lambda>a5. Option.bind (update rnd ''tls'' (TLS (Phases r)) a5)
           (\<lambda>a6. Option.bind (update rnd ''ttfb'' (TTFB (Phases r)) a6)
           (\<lambda>a7. update rnd ''total'' (Total (Phases r)) a7)))))"

text \<open>
  The file that \<open>LoadJSONL\<close> reads: \<open>os.Open\<close> either fails or gives a file whose
  reader delivers \<open>content\<close> and then ends with \<open>io.EOF\<close> or with another error.
\<close>

datatype read_end = EOF | ReadError string

record jsonl_file =
  content :: string
  ending :: read_end

text \<open>
  \<open>bufio.Reader.ReadBytes('\n')\<close> on the bytes not yet read: the bytes up to and
  including the first newline and the rest, or all remaining bytes when there is no
  newline (the call then returns the reader's error with them).
\<close>

definition ReadBytes :: "string \<Rightarrow> string \<times> string \<times> bool" where
  "ReadBytes s =
     (case dropWhile (\<lambda>c. c \<noteq> CHR 0x0A) s of
        [] \<Rightarrow> (s, [], False)
      | c # rest \<Rightarrow> (takeWhile (\<lambda>c. c \<noteq> CHR 0x0A) s @ [c], rest, True))"

text \<open>
  The body of the read loop for one chunk: a non-empty chunk is passed to
  \<open>json.Unmarshal\<close> (the library's, a parameter; \<open>None\<close> where it returns an error)
  and added only when that succeeded.
\<close>

definition consume :: "(real \<Rightarrow> real) \<Rightarrow> (string \<Rightarrow> Result option) \<Rightarrow> Aggregator \<Rightarrow> string \<Rightarrow> Aggregator option" where
  "consume rnd unmarshal a line =
     (if line \<noteq> [] then
        (case unmarshal line of
           Some res \<Rightarrow> Aggregator_Add rnd a res
         | None \<Rightarrow> Some a)
      else Some a)"

text \<open>
  The loop of \<open>LoadJSONL\<close>. The result is \<open>None\<close> for a panic, and otherwise the
  aggregator as the loop left it with the error returned (\<open>None\<close> for \<open>nil\<close>).
\<close>

function readLoop ::
  "(real \<Rightarrow> real) \<Rightarrow> (string \<Rightarrow> Result option) \<Rightarrow> read_end \<Rightarrow> string \<Rightarrow> Aggregator
     \<Rightarrow> (Aggregator \<times> string option) option" where
  "readLoop rnd unmarshal fin s a =
     (case ReadBytes s of
        (line, rest, found) \<Rightarrow>
          (case consume rnd unmarshal a line of
             None \<Rightarrow> None
           | Some a' \<Rightarrow>
               if found then readLoop rnd unmarshal fin rest a'
               else (case fin of
                       EOF \<Rightarrow> Some (a', None)
                     | ReadError e \<Rightarrow> Some (a', Some e))))"
  by pat_completeness auto
termination
  apply (relation "measure (\<lambda>(rnd, unmarshal, fin, s, a). length s)")
   apply simp
  apply (clarsimp simp: ReadBytes_def split: list.splits)
  apply (metis length_dropWhile_le length_Cons Suc_le_eq)
  done

definition LoadJSONL ::
  "(real \<Rightarrow> real) \<Rightarrow> (string \<Rightarrow> Result option) \<Rightarrow> string + jsonl_file \<Rightarrow> Aggregator
     \<Rightarrow> (Aggregator \<times> string option) option" where
  "LoadJSONL rnd unmarshal opened a =
     (case opened of
        Inl err \<Rightarrow> Some (a, Some err)
      | Inr f \<Rightarrow> readLoop rnd unmarshal (ending f) (content f) a)"

text \<open>
  For stating what \<open>LoadJSONL\<close> computes: \<open>stats_ready\<close> holds of an aggregator
  that has an entry for each phase name, as \<open>New\<close> makes it; \<open>chunks\<close> are the byte
  strings that successive \<open>ReadBytes\<close> calls deliver; \<open>records\<close> are the results
  decoded from the non-empty chunks that \<open>json.Unmarshal\<close> accepts; \<open>addMany\<close> adds
  a list of results in order.
\<close>

definition stats_ready :: "Aggregator \<Rightarrow> bool" where
  "stats_ready a = list_all (\<lambda>p. stats a p \<noteq> None) PhaseNames"

function chunks :: "string \<Rightarrow> string list" where
  "chunks s =
     (case ReadBytes s of
        (line, rest, found) \<Rightarrow> if found then line # chunks rest else [line])"
  by pat_completeness auto
termination
  apply (relation "measure length")
   apply simp
  apply (clarsimp simp: ReadBytes_def split: list.splits)
  apply (metis length_dropWhile_le length_Cons Suc_le_eq)
  done

definition records :: "(string \<Rightarrow> Result option) \<Rightarrow> string \<Rightarrow> Result list" where
  "records unmarshal s = List.map_filter unmarshal (filter (\<lambda>line. line \<noteq> []) (chunks s))"

fun addMany :: "(real \<Rightarrow> real) \<Rightarrow> Aggregator \<Rightarrow> Result list \<Rightarrow> Aggregator option" where
  "addMany rnd a [] = Some a"
| "addMany rnd a (r # rs) =
     (case Aggregator_Add rnd a r of
        None \<Rightarrow> None
      | Some a' \<Rightarrow> addMany rnd a' rs)"

text \<open>
  For evaluating examples: \<open>json.Unmarshal\<close> restricted to the line holding the empty
  object, which decodes to the zero \<open>Result\<close>; any other line is taken as malformed.
\<close>

definition unmarshalEmptyObject :: "string \<Rightarrow> Result option" where
  "unmarshalEmptyObject line =
     (if line = ''{}'' \<or> line = [CHR ''{'', CHR ''}'', CHR 0x0A] then Some zeroResult else None)"

definition exampleFile :: jsonl_file where
  "exampleFile =
     \<lparr>content = ''{}'' @ [CHR 0x0A] @ ''not json'' @ [CHR 0x0A] @ ''{}'', ending = EOF\<rparr>"

declare readLoop.simps [simp del] chunks.simps [simp del]

section \<open>The run orchestrator (Run)\<close>

text \<open>
  \<open>Run\<close> starts goroutines, so it is modelled as a transition system over the state
  of the main goroutine, the workers, the sink goroutine, the two channels and the two
  files. One transition is one statement (or one \<open>select\<close> case) of one goroutine. A
  schedule, the list of transitions taken, stands for the Go scheduler's choices together
  with what the environment answers: whether \<open>makeRequest\<close> and \<open>os.Create\<close> succeed,
  when the timers fire, what each HTTP call does, and when the context is cancelled.
\<close>

datatype run_error = MakeRequestErr | OpenOutputErr | OpenProgressErr

text \<open>The main goroutine, by the statement of \<open>Run\<close> it executes next.\<close>

datatype main_pc =
    M_MakeRequest
  | M_MakeChans
  | M_StartWorkers
  | M_CreateOut
  | M_CreateProgress
  | M_StartSink
  | M_NewTicker
  | M_Select
  | M_Send
  | M_CloseWork
  | M_Wait
  | M_CloseResults
  | M_Return
  | M_Returned "run_error option"
  | M_Panicked

text \<open>
  A worker: receiving from \<open>workCh\<close>, inside \<open>doRequest\<close>, in the \<open>select\<close> that
  sends its result, or returned.
\<close>

datatype worker_pc = W_Recv | W_Request | W_Send Result | W_Exited

text \<open>
  The sink goroutine: not started, in its \<open>select\<close>, between the final
  \<open>printStats\<close> and the final \<open>Fprintln\<close>, or returned.
\<close>

datatype sink_pc = S_NotStarted | S_Select | S_Final | S_Exited

datatype file_state = F_NotOpen | F_Open | F_Closed

text \<open>
  A line of \<open>progress.log\<close>: a \<open>printStats\<close> line, kept as the collector it was
  formatted from, or the completion line.
\<close>

datatype progress_line = StatsLine StatsCollector | TestCompleted

record run_state =
  main :: main_pc
  sched_count :: int64
  workers :: "worker_pc list"
  sink :: sink_pc
  workCh :: "int64 list"
  workClosed :: bool
  results :: "Result list"
  resultsClosed :: bool
  ctxDone :: bool
  collector :: StatsCollector
  outFile :: file_state
  outLines :: "Result list"
  progressFile :: file_state
  progressLog :: "progress_line list"
  requests :: nat

definition initial :: run_state where
  "initial =
     \<lparr>main = M_MakeRequest, sched_count = 0, workers = [], sink = S_NotStarted,
      workCh = [], workClosed = False, results = [], resultsClosed = False,
      ctxDone = False, collector = newStats, outFile = F_NotOpen, outLines = [],
      progressFile = F_NotOpen, progressLog = [], requests = 0\<rparr>"

datatype main_choice = Proceed | Fail | Stop | Tick | Send | Handoff nat | CtxDone

datatype worker_choice = Recv | Done int http_call | SendResult | CtxExit

datatype sink_choice = RecvResult | Ticker | Complete

datatype label =
    Main main_choice
  | Worker nat worker_choice
  | Sink sink_choice
  | Cancel

text \<open>
  A write to a file: it reaches the file only while the file is open (a write to a
  closed \<open>*os.File\<close> returns an error, which the sink ignores). A write to an open
  file is taken to succeed.
\<close>

definition writeTo :: "file_state \<Rightarrow> 'a list \<Rightarrow> 'a list \<Rightarrow> 'a list" where
  "writeTo f written new = (if f = F_Open then written @ new else written)"

text \<open>
  A panic of the main goroutine: the deferred \<open>Close\<close> calls registered so far run and
  the process dies.
\<close>

definition panicMain :: "run_state \<Rightarrow> run_state" where
  "panicMain s =
     s\<lparr>progressFile := (if progressFile s = F_Open then F_Closed else progressFile s),
       outFile := (if outFile s = F_Open then F_Closed else outFile s),
       main := M_Panicked\<rparr>"

text \<open>
  The main goroutine. \<open>queueSize\<close> is \<open>r.cfg.Load.QueueSize\<close>, a field that the
  configuration type under \<open>package config\<close> does not declare; it is a parameter.
  In \<open>M_StartWorkers\<close> the loop index \<open>i\<close> is the number of workers started so far.
  A send on \<open>workCh\<close> either appends to the buffer (\<open>Send\<close>) or, with an empty
  buffer, hands the ticket to a worker that waits in its receive (\<open>Handoff\<close>).
\<close>

definition main_step :: "Config \<Rightarrow> int64 \<Rightarrow> main_choice \<Rightarrow> run_state \<Rightarrow> run_state option" where
  "main_step cfg queueSize c s =
     (case main s of
        M_MakeRequest \<Rightarrow>
          (case c of
             Proceed \<Rightarrow> Some (s\<lparr>main := M_MakeChans\<rparr>)
           | Fail \<Rightarrow> Some (s\<lparr>main := M_Returned (Some MakeRequestErr)\<rparr>)
           | _ \<Rightarrow> None)
      | M_MakeChans \<Rightarrow>
          (case c of
             Proceed \<Rightarrow>
               if queueSize <s 0 \<or> Concurrency (Load cfg) * 2 <s 0 then Some (panicMain s)
               else Some (s\<lparr>main := M_StartWorkers\<rparr>)
           | _ \<Rightarrow> None)
      | M_StartWorkers \<Rightarrow>
          (case c of
             Proceed \<Rightarrow>
               if int (length (workers s)) < sint (Concurrency (Load cfg))
               then Some (s\<lparr>workers := workers s @ [W_Recv]\<rparr>)
               else Some (s\<lparr>main := M_CreateOut\<rparr>)
           | _ \<Rightarrow> None)
      | M_CreateOut \<Rightarrow>
          (case c of
             Proceed \<Rightarrow> Some (s\<lparr>outFile := F_Open, main := M_CreateProgress\<rparr>)
           | Fail \<Rightarrow> Some (s\<lparr>main := M_Returned (Some OpenOutputErr)\<rparr>)
           | _ \<Rightarrow> None)
      | M_CreateProgress \<Rightarrow>
          (case c of
             Proceed \<Rightarrow> Some (s\<lparr>progressFile := F_Open, main := M_StartSink\<rparr>)
           | Fail \<Rightarrow> Some (s\<lparr>outFile := F_Closed, main := M_Returned (Some OpenProgressErr)\<rparr>)
           | _ \<Rightarrow> None)
      | M_StartSink \<Rightarrow>
          (case c of
             Proceed \<Rightarrow> Some (s\<lparr>sink := S_Select, main := M_NewTicker\<rparr>)
           | _ \<Rightarrow> None)
      | M_NewTicker \<Rightarrow>
          (case c of
             Proceed \<Rightarrow>
               (case schedulerInterval (Rate (Load cfg)) of
                  None \<Rightarrow> Some (panicMain s)
                | Some interval \<Rightarrow>
                    if interval \<le>s 0 then Some (panicMain s)
                    else Some (s\<lparr>main := M_Select\<rparr>))
           | _ \<Rightarrow> None)
      | M_Select \<Rightarrow>
          (case c of
             Stop \<Rightarrow> Some (s\<lparr>main := M_CloseWork\<rparr>)
           | Tick \<Rightarrow> Some (s\<lparr>main := M_Send\<rparr>)
           | _ \<Rightarrow> None)
      | M_Send \<Rightarrow>
          (case c of
             Send \<Rightarrow>
               if int (length (workCh s)) < sint queueSize
               then Some (s\<lparr>workCh := workCh s @ [sched_count s],
                            sched_count := sched_count s + 1, main := M_Select\<rparr>)
               else None
           | Handoff i \<Rightarrow>
               if i < length (workers s) \<and> workers s ! i = W_Recv \<and> workCh s = []
               then Some (s\<lparr>workers := (workers s)[i := W_Request],
                            requests := requests s + 1,
                            sched_count := sched_count s + 1, main := M_Select\<rparr>)
               else None
           | CtxDone \<Rightarrow> if ctxDone s then Some (s\<lparr>main := M_CloseWork\<rparr>) else None
           | _ \<Rightarrow> None)
      | M_CloseWork \<Rightarrow>
          (case c of
             Proceed \<Rightarrow> Some (s\<lparr>workClosed := True, main := M_Wait\<rparr>)
           | _ \<Rightarrow> None)
      | M_Wait \<Rightarrow>
          (case c of
             Proceed \<Rightarrow>
               if list_all (\<lambda>w. w = W_Exited) (workers s)
               then Some (s\<lparr>main := M_CloseResults\<rparr>)
               else None
           | _ \<Rightarrow> None)
      | M_CloseResults \<Rightarrow>
          (case c of
             Proceed \<Rightarrow> Some (s\<lparr>resultsClosed := True, main := M_Return\<rparr>)
           | _ \<Rightarrow> None)
      | M_Return \<Rightarrow>
          (case c of
             Proceed \<Rightarrow>
               Some (s\<lparr>progressFile := F_Closed, outFile := F_Closed,
                       main := M_Returned None\<rparr>)
           | _ \<Rightarrow> None)
      | M_Returned r \<Rightarrow> None
      | M_Panicked \<Rightarrow> None)"

text \<open>
  Worker \<open>i\<close>. A receive takes the oldest buffered ticket, or ends the \<open>range\<close> loop
  when the channel is closed and empty. A send on a closed channel panics.
\<close>

definition worker_step :: "Config \<Rightarrow> nat \<Rightarrow> worker_choice \<Rightarrow> run_state \<Rightarrow> run_state option" where
  "worker_step cfg i c s =
     (if i < length (workers s) then
        (case workers s ! i of
           W_Recv \<Rightarrow>
             (case c of
                Recv \<Rightarrow>
                  (case workCh s of
                     t # ts \<Rightarrow>
                       Some (s\<lparr>workCh := ts, workers := (workers s)[i := W_Request],
                               requests := requests s + 1\<rparr>)
                   | [] \<Rightarrow>
                       if workClosed s then Some (s\<lparr>workers := (workers s)[i := W_Exited]\<rparr>)
                       else None)
              | _ \<Rightarrow> None)
         | W_Request \<Rightarrow>
             (case c of
                Done start call \<Rightarrow>
                  Some (s\<lparr>workers := (workers s)[i := W_Send (doRequest start call)]\<rparr>)
              | _ \<Rightarrow> None)
         | W_Send res \<Rightarrow>
             (case c of
                SendResult \<Rightarrow>
                  if resultsClosed s then Some (s\<lparr>main := M_Panicked\<rparr>)
                  else if int (length (results s)) < sint (Concurrency (Load cfg) * 2)
                  then Some (s\<lparr>results := results s @ [res],
                               workers := (workers s)[i := W_Recv]\<rparr>)
                  else None
              | CtxExit \<Rightarrow>
                  if ctxDone s then Some (s\<lparr>workers := (workers s)[i := W_Exited]\<rparr>)
                  else None
              | _ \<Rightarrow> None)
         | W_Exited \<Rightarrow> None)
      else None)"

text \<open>
  The sink goroutine: a received result is added to the collector and encoded to the
  results file; on the closed and drained channel it writes the final statistics
  (\<open>RecvResult\<close>) and then the completion line (\<open>Complete\<close>); on its ticker it
  writes a statistics line.
\<close>

definition sink_step :: "sink_choice \<Rightarrow> run_state \<Rightarrow> run_state option" where
  "sink_step c s =
     (case sink s of
        S_Select \<Rightarrow>
          (case c of
             RecvResult \<Rightarrow>
               (case results s of
                  res # rest \<Rightarrow>
                    Some (s\<lparr>results := rest,
                            collector := StatsCollector_Add (collector s) res,
                            outLines := writeTo (outFile s) (outLines s) [res]\<rparr>)
                | [] \<Rightarrow>
                    if resultsClosed s
                    then Some (s\<lparr>progressLog := writeTo (progressFile s) (progressLog s)
                                                   [StatsLine (collector s)],
                                 sink := S_Final\<rparr>)
                    else None)
           | Ticker \<Rightarrow>
               Some (s\<lparr>progressLog := writeTo (progressFile s) (progressLog s)
                                         [StatsLine (collector s)]\<rparr>)
           | Complete \<Rightarrow> None)
      | S_Final \<Rightarrow>
          (case c of
             Complete \<Rightarrow>
               Some (s\<lparr>progressLog := writeTo (progressFile s) (progressLog s) [TestCompleted],
                       sink := S_Exited\<rparr>)
           | _ \<Rightarrow> None)
      | S_NotStarted \<Rightarrow> None
      | S_Exited \<Rightarrow> None)"

text \<open>
  One transition. \<open>M_Panicked\<close> stands for the process killed by a panic of any
  goroutine: nothing moves after it.
\<close>

definition step :: "Config \<Rightarrow> int64 \<Rightarrow> label \<Rightarrow> run_state \<Rightarrow> run_state option" where
  "step cfg queueSize l s =
     (if main s = M_Panicked then None
      else case l of
             Main c \<Rightarrow> main_step cfg queueSize c s
           | Worker i c \<Rightarrow> worker_step cfg i c s
           | Sink c \<Rightarrow> sink_step c s
           | Cancel \<Rightarrow> Some (s\<lparr>ctxDone := True\<rparr>))"

text \<open>A schedule, run from a state; \<open>None\<close> when it asks for a transition that is not enabled.\<close>

fun run :: "Config \<Rightarrow> int64 \<Rightarrow> label list \<Rightarrow> run_state \<Rightarrow> run_state option" where
  "run cfg queueSize [] s = Some s"
| "run cfg queueSize (l # ls) s =
     (case step cfg queueSize l s of
        None \<Rightarrow> None
      | Some s' \<Rightarrow> run cfg queueSize ls s')"

definition Run :: "Config \<Rightarrow> int64 \<Rightarrow> label list \<Rightarrow> run_state option" where
  "Run cfg queueSize schedule = run cfg queueSize schedule initial"

text \<open>
  Predicates on the position of the main goroutine: before the sink and the scheduler
  are started (an error return included), with every worker started and the output files
  not yet both open, and after \<open>wg.Wait()\<close> has returned.
\<close>

fun before_scheduler :: "main_pc \<Rightarrow> bool" where
  "before_scheduler M_MakeRequest = True"
| "before_scheduler M_MakeChans = True"
| "before_scheduler M_StartWorkers = True"
| "before_scheduler M_CreateOut = True"
| "before_scheduler M_CreateProgress = True"
| "before_scheduler (M_Returned (Some e)) = True"
| "before_scheduler pc = False"

fun started_all :: "main_pc \<Rightarrow> bool" where
  "started_all M_CreateOut = True"
| "started_all M_CreateProgress = True"
| "started_all (M_Returned (Some OpenOutputErr)) = True"
| "started_all (M_Returned (Some OpenProgressErr)) = True"
| "started_all pc = False"

fun after_join :: "main_pc \<Rightarrow> bool" where
  "after_join M_CloseResults = True"
| "after_join M_Return = True"
| "after_join (M_Returned None) = True"
| "after_join pc = False"

text \<open>
  Invariants of the transition system. \<open>idle\<close>: nothing has been scheduled, received
  or written. \<open>spawned\<close>: the number of workers started. \<open>joined\<close>: the order of
  \<open>wg.Wait()\<close>, \<open>close(results)\<close> and the return.
\<close>

definition idle :: "run_state \<Rightarrow> bool" where
  "idle s =
     (requests s = 0 \<and> sink s = S_NotStarted \<and> workCh s = [] \<and> \<not> workClosed s
      \<and> results s = [] \<and> \<not> resultsClosed s \<and> list_all (\<lambda>w. w = W_Recv) (workers s)
      \<and> outLines s = [] \<and> progressLog s = [] \<and> sched_count s = 0)"

definition spawned :: "Config \<Rightarrow> run_state \<Rightarrow> bool" where
  "spawned cfg s =
     ((main s = M_StartWorkers
        \<longrightarrow> int (length (workers s)) \<le> max 0 (sint (Concurrency (Load cfg))))
      \<and> (started_all (main s)
        \<longrightarrow> length (workers s) = nat (sint (Concurrency (Load cfg))))
      \<and> (main s = M_MakeRequest \<or> main s = M_MakeChans \<longrightarrow> workers s = []))"

definition joined :: "run_state \<Rightarrow> bool" where
  "joined s =
     ((after_join (main s) \<longrightarrow> list_all (\<lambda>w. w = W_Exited) (workers s))
      \<and> (resultsClosed s \<longrightarrow>
            main s = M_Return \<or> main s = M_Returned None \<or> main s = M_Panicked)
      \<and> (main s = M_Return \<or> main s = M_Returned None \<longrightarrow> resultsClosed s))"

text \<open>
  Examples. \<open>smallConfig\<close>: ten requests per second for one second on two workers.
  \<open>openFails\<close>: the request is built, the channels are made, both workers are started
  and \<open>os.Create(outPath)\<close> fails. \<open>earlyReturn\<close>: both files open, the sink starts,
  and one tick hands a ticket to worker 0; the duration elapses while that request is in
  flight and the work channel is closed; worker 1 leaves; worker 0 completes
  \<open>plainCall\<close>, puts its result into the results channel and leaves; the main
  goroutine passes \<open>wg.Wait()\<close>, closes the results channel and returns, all before
  the sink runs again. \<open>sinkFinishes\<close>: the sink then takes the result, finds the
  channel closed and writes its two final lines.
\<close>

definition smallConfig :: Config where
  "smallConfig = DefaultConfig\<lparr>Load := (Load DefaultConfig)\<lparr>Rate := 10, Duration := ''1s'',
     Concurrency := 2\<rparr>\<rparr>"

definition openFails :: "label list" where
  "openFails = [Main Proceed, Main Proceed, Main Proceed, Main Proceed, Main Proceed, Main Fail]"

definition earlyReturn :: "label list" where
  "earlyReturn =
     [Main Proceed, Main Proceed, Main Proceed, Main Proceed, Main Proceed,
      Main Proceed, Main Proceed, Main Proceed, Main Proceed,
      Main Tick, Main (Handoff 0), Main Stop, Main Proceed, Worker 1 Recv,
      Worker 0 (Done 0 plainCall), Worker 0 SendResult, Worker 0 Recv,
      Main Proceed, Main Proceed, Main Proceed]"

definition sinkFinishes :: "label list" where
  "sinkFinishes = [Sink RecvResult, Sink RecvResult, Sink Complete]"

section \<open>Properties of the live statistics collector\<close>

lemma countFamily_counters:
  "sent (countFamily s c) = sent s" "success (countFamily s c) = success s"
  "fail (countFamily s c) = fail s" "totalLat (countFamily s c) = totalLat s"
  "failMap (countFamily s c) = failMap s"
  by (simp_all add: countFamily_def Let_def)

lemma Add_sent: "sent (StatsCollector_Add s r) = sent s + 1"
  by (simp add: StatsCollector_Add_def Let_def countFamily_counters)

lemma Add_success:
  "success (StatsCollector_Add s r) = (if Error r = [] then success s + 1 else success s)"
  by (simp add: StatsCollector_Add_def Let_def countFamily_counters)

lemma Add_fail:
  "fail (StatsCollector_Add s r) = (if Error r = [] then fail s else fail s + 1)"
  by (simp add: StatsCollector_Add_def Let_def countFamily_counters)

lemma Add_totalLat:
  "totalLat (StatsCollector_Add s r) =
     (if Error r = [] then totalLat s + Milliseconds (Total (Phases r)) else totalLat s)"
  by (simp add: StatsCollector_Add_def Let_def countFamily_counters)

lemma foldl_Add_balance:
  "sent s = success s + fail s \<Longrightarrow>
   sent (foldl StatsCollector_Add s rs) =
     success (foldl StatsCollector_Add s rs) + fail (foldl StatsCollector_Add s rs)"
  by (induction rs arbitrary: s) (simp_all add: Add_sent Add_success Add_fail)

text \<open>
  C5: after any sequence of results added to a fresh collector, sent equals success
  plus failure; one \<open>Add\<close> increments sent by one and exactly one of success and
  failure by one. The counters are 64-bit and the equations hold with their wrap-around.
\<close>

theorem StatsCollector_balance:
  "sent (addAll rs) = success (addAll rs) + fail (addAll rs)
   \<and> sent (StatsCollector_Add s r) = sent s + 1
   \<and> (success (StatsCollector_Add s r) = success s + 1 \<and> fail (StatsCollector_Add s r) = fail s
        \<or> success (StatsCollector_Add s r) = success s
          \<and> fail (StatsCollector_Add s r) = fail s + 1)"
  using foldl_Add_balance [of newStats rs]
  by (simp add: addAll_def newStats_def Add_sent Add_success Add_fail)

lemma foldl_Add_success:
  "success (foldl StatsCollector_Add s rs) = success s + of_nat (length (successes rs))"
  by (induction rs arbitrary: s) (simp_all add: Add_success successes_def)

lemma foldl_Add_totalLat:
  "totalLat (foldl StatsCollector_Add s rs) = totalLat s + word_of_int (truncatedMsSum rs)"
  by (induction rs arbitrary: s) (simp_all add: Add_totalLat successes_def truncatedMsSum_def)

lemma sint_of_int_in_range:
  "- (2 ^ 63) \<le> k \<Longrightarrow> k < 2 ^ 63 \<Longrightarrow> sint (word_of_int k :: int64) = k"
  by (simp add: sint_sbintrunc' signed_take_bit_int_eq_self)

lemma sint_of_nat_in_range:
  "int n < 2 ^ 63 \<Longrightarrow> sint (of_nat n :: int64) = int n"
  using sint_of_int_in_range [of "int n"] by simp

lemma nearTwoMs_collected:
  "success (addAll nearTwoMs) = 2 \<and> totalLat (addAll nearTwoMs) = 2"
  by (simp add: addAll_def nearTwoMs_def newStats_def StatsCollector_Add_def countFamily_def
      Milliseconds_def sdiv64_def signed_divide_int_def zeroResult_def zeroPhases_def Let_def
      word_sless_alt)

text \<open>
  C7, as stated, fails: for two successful results of 1.9 ms each the sum of the
  \<open>Total\<close> latencies divided by the success count is 1900000 ns, that is 1.9 ms, and
  \<open>Snapshot\<close> reports the average 1.
\<close>

theorem Snapshot_average_counterexample:
  "snap_avgLat (Snapshot id (addAll nearTwoMs)) = 1
   \<and> averageTotal nearTwoMs = 1900000
   \<and> averageTotalMs nearTwoMs = 19 / 10
   \<and> snap_avgLat (Snapshot id (addAll nearTwoMs)) \<noteq> averageTotal nearTwoMs
   \<and> snap_avgLat (Snapshot id (addAll nearTwoMs)) \<noteq> averageTotalMs nearTwoMs"
proof -
  have a: "snap_avgLat (Snapshot id (addAll nearTwoMs)) = 1"
    by (simp add: Snapshot_def f64_div_def f64_of_int64_def nearTwoMs_collected word_sless_alt)
  have b: "averageTotal nearTwoMs = 1900000"
    by (simp add: averageTotal_def totalLatencySum_def successes_def nearTwoMs_def
        zeroResult_def zeroPhases_def)
  have c: "averageTotalMs nearTwoMs = 19 / 10"
    by (simp add: averageTotalMs_def b)
  show ?thesis
    by (simp add: a b c)
qed

text \<open>
  C7, amended: the average latency of \<open>Snapshot\<close> is the sum of the \<open>Total\<close>
  latencies of the successful results, each truncated to whole milliseconds when it is
  added, divided by the number of successful results (a \<open>float64\<close> division of the two
  counters), and zero when there is no successful result. Failed results add nothing to
  the sum. The premises say that the two counters have not overflowed.
\<close>

theorem Snapshot_average:
  assumes "int (length (successes rs)) < 2 ^ 63"
    and "- (2 ^ 63) \<le> truncatedMsSum rs" and "truncatedMsSum rs < 2 ^ 63"
  shows "snap_avgLat (Snapshot rnd (addAll rs)) =
           (if successes rs = [] then 0
            else rnd (rnd (real_of_int (truncatedMsSum rs))
                      / rnd (real (length (successes rs)))))"
proof -
  have s: "sint (success (addAll rs)) = int (length (successes rs))"
    using assms(1) by (simp add: addAll_def foldl_Add_success newStats_def sint_of_nat_in_range)
  have t: "sint (totalLat (addAll rs)) = truncatedMsSum rs"
    using assms(2,3) by (simp add: addAll_def foldl_Add_totalLat newStats_def sint_of_int_in_range)
  show ?thesis
    by (simp add: Snapshot_def f64_div_def f64_of_int64_def word_sless_alt s t)
qed

text \<open>
  An example: successes of 1.9 ms and 4 ms and one failure of 9 s. The truncated sum is
  1 + 4 and the average is 2.5.
\<close>

theorem Snapshot_average_witness:
  "int (length (successes threeResults)) < 2 ^ 63
   \<and> - (2 ^ 63) \<le> truncatedMsSum threeResults \<and> truncatedMsSum threeResults < 2 ^ 63
   \<and> truncatedMsSum threeResults = 5
   \<and> snap_avgLat (Snapshot id (addAll threeResults)) = 5 / 2"
proof -
  have l: "truncatedMsSum threeResults = 5"
    by (simp add: truncatedMsSum_def successes_def threeResults_def Milliseconds_def sdiv64_def
        signed_divide_int_def zeroResult_def zeroPhases_def)
  have n: "length (successes threeResults) = 2"
    by (simp add: successes_def threeResults_def zeroResult_def)
  have s: "successes threeResults \<noteq> []"
    using n by auto
  show ?thesis
    using Snapshot_average [of threeResults id] by (simp add: l n s)
qed

section \<open>Properties of the configuration validator\<close>

lemma interval_zero_iff:
  assumes "0 <s rate"
  shows "schedulerInterval rate = Some 0 \<longleftrightarrow> 1000000000 <s rate"
proof -
  let ?r = "sint rate"
  have pos: "0 < ?r" using assms by (simp add: word_sless_alt)
  then have ne: "rate \<noteq> 0" by auto
  have q: "(1000000000 :: int) sdiv ?r = 1000000000 div ?r"
    using pos by (simp add: signed_divide_int_def sgn_if)
  have b: "0 \<le> 1000000000 div ?r" "1000000000 div ?r \<le> 1000000000"
    using pos by (simp_all add: int_div_le_self pos_imp_zdiv_nonneg_iff)
  have "(word_of_int (1000000000 div ?r) :: int64) = 0 \<longleftrightarrow> 1000000000 div ?r = 0"
  proof -
    from b have "take_bit 64 (1000000000 div ?r) = 1000000000 div ?r"
      by (simp add: take_bit_int_eq_self)
    then show ?thesis
      using word_of_int_eq_iff [where ?'a = 64, of "1000000000 div ?r" 0] by simp
  qed
  also have "\<dots> \<longleftrightarrow> 1000000000 < ?r"
    using pos by (simp add: zdiv_eq_0_iff)
  finally show ?thesis
    using ne by (simp add: schedulerInterval_def sdiv64_def q word_sless_alt)
qed







text \<open>
  What the zero interval leads to: with a positive rate above one billion,
  \<open>time.NewTicker\<close> panics when \<open>Run\<close> reaches it.
\<close>

lemma Run_zero_interval_panics:
  assumes "main s = M_NewTicker" "1000000000 <s Rate (Load cfg)"
  shows "step cfg queueSize (Main Proceed) s = Some (panicMain s)"
proof -
  have pos: "0 <s Rate (Load cfg)"
    using assms(2) by (simp add: word_sless_alt)
  with assms(2) have "schedulerInterval (Rate (Load cfg)) = Some 0"
    by (simp add: interval_zero_iff)
  with assms(1) show ?thesis
    by (simp add: step_def main_step_def)
qed

section \<open>Properties of the offline aggregator\<close>

lemma update_ready:
  assumes "stats_ready a" "phase \<in> set PhaseNames"
  shows "\<exists>a'. update rnd phase d a = Some a' \<and> stats_ready a'"
  using assms
  by (auto simp: update_def stats_ready_def PhaseNames_def Let_def split: option.splits)

lemma stats_ready_fields:
  "stats_ready (a\<lparr>count := c\<rparr>) = stats_ready a"
  "stats_ready (a\<lparr>status := m\<rparr>) = stats_ready a"
  "stats_ready (a\<lparr>errors := e\<rparr>) = stats_ready a"
  "stats_ready (a\<lparr>failByPhase := f\<rparr>) = stats_ready a"
  "stats_ready (a\<lparr>statusFamily := g\<rparr>) = stats_ready a"
  by (simp_all add: stats_ready_def)

lemma countStatus_ready: "stats_ready (countStatus a code) = stats_ready a"
  by (simp add: countStatus_def Let_def stats_ready_fields)

lemma Aggregator_Add_ready:
  assumes "stats_ready a"
  shows "\<exists>a'. Aggregator_Add rnd a r = Some a' \<and> stats_ready a'"
proof -
  let ?a1 = "countStatus (a\<lparr>count := count a + 1\<rparr>) (Code r)"
  let ?a2 = "if Error r \<noteq> [] then ?a1\<lparr>errors := incr (errors ?a1) (Error r)\<rparr> else ?a1"
  let ?a3 = "if FailPhase r \<noteq> [] then ?a2\<lparr>failByPhase := incr (failByPhase ?a2) (FailPhase r)\<rparr>
             else ?a2"
  have r3: "stats_ready ?a3"
    using assms by (simp add: countStatus_ready stats_ready_fields)
  obtain a4 where a4: "update rnd ''dns'' (DNS (Phases r)) ?a3 = Some a4" "stats_ready a4"
    using update_ready [OF r3, of "''dns''"] by (auto simp: PhaseNames_def)
  obtain a5 where a5: "update rnd ''connect'' (Connect (Phases r)) a4 = Some a5" "stats_ready a5"
    using update_ready [OF a4(2), of "''connect''"] by (auto simp: PhaseNames_def)
  obtain a6 where a6: "update rnd ''tls'' (TLS (Phases r)) a5 = Some a6" "stats_ready a6"
    using update_ready [OF a5(2), of "''tls''"] by (auto simp: PhaseNames_def)
  obtain a7 where a7: "update rnd ''ttfb'' (TTFB (Phases r)) a6 = Some a7" "stats_ready a7"
    using update_ready [OF a6(2), of "''ttfb''"] by (auto simp: PhaseNames_def)
  obtain a8 where a8: "update rnd ''total'' (Total (Phases r)) a7 = Some a8" "stats_ready a8"
    using update_ready [OF a7(2), of "''total''"] by (auto simp: PhaseNames_def)
  have "Aggregator_Add rnd a r = Some a8"
    unfolding Aggregator_Add_def Let_def using a4(1) a5(1) a6(1) a7(1) a8(1) by simp
  with a8(2) show ?thesis by blast
qed

lemma addMany_ready:
  "stats_ready a \<Longrightarrow> \<exists>a'. addMany rnd a rs = Some a' \<and> stats_ready a'"
proof (induction rs arbitrary: a)
  case Nil
  then show ?case by simp
next
  case (Cons r rs)
  then obtain a1 where "Aggregator_Add rnd a r = Some a1" "stats_ready a1"
    using Aggregator_Add_ready by blast
  with Cons.IH [of a1] show ?case by simp
qed

lemma consume_eq:
  "consume rnd unmarshal a line =
     addMany rnd a (List.map_filter unmarshal (filter (\<lambda>l. l \<noteq> []) [line]))"
  by (simp add: consume_def List.map_filter_def split: option.splits)

lemma addMany_append:
  "addMany rnd a (rs @ rs') =
     (case addMany rnd a rs of None \<Rightarrow> None | Some a' \<Rightarrow> addMany rnd a' rs')"
  by (induction rs arbitrary: a) (simp_all split: option.splits)

lemma map_filter_Cons_chunk:
  "List.map_filter um (filter P (l # ls)) =
     List.map_filter um (filter P [l]) @ List.map_filter um (filter P ls)"
  by (simp add: List.map_filter_def)

lemma readLoop_eq:
  "readLoop rnd unmarshal fin s a =
     (case addMany rnd a (records unmarshal s) of
        None \<Rightarrow> None
      | Some a' \<Rightarrow> Some (a', case fin of EOF \<Rightarrow> None | ReadError e \<Rightarrow> Some e))"
proof (induction rnd unmarshal fin s a rule: readLoop.induct)
  case (1 rnd unmarshal fin s a)
  obtain line rest found where rb: "ReadBytes s = (line, rest, found)"
    by (cases "ReadBytes s") auto
  show ?case
  proof (cases found)
    case True
    have c: "chunks s = line # chunks rest"
      using rb True by (subst chunks.simps) simp
    have r: "records unmarshal s =
        List.map_filter unmarshal (filter (\<lambda>l. l \<noteq> []) [line]) @ records unmarshal rest"
      unfolding records_def c by (rule map_filter_Cons_chunk)
    show ?thesis
    proof (cases "consume rnd unmarshal a line")
      case None
      then show ?thesis
        using rb True
        by (subst readLoop.simps) (simp add: r addMany_append consume_eq)
    next
      case (Some a1)
      have "readLoop rnd unmarshal fin s a = readLoop rnd unmarshal fin rest a1"
        using rb True Some by (subst readLoop.simps) simp
      also have "\<dots> = (case addMany rnd a1 (records unmarshal rest) of
          None \<Rightarrow> None
        | Some a' \<Rightarrow> Some (a', case fin of EOF \<Rightarrow> None | ReadError e \<Rightarrow> Some e))"
        using "1.IH" [OF rb [symmetric] refl Some True] .
      finally show ?thesis
        using Some by (simp add: r addMany_append consume_eq)
    qed
  next
    case False
    have c: "chunks s = [line]"
      using rb False by (subst chunks.simps) simp
    show ?thesis
      using rb False
      by (subst readLoop.simps)
        (simp add: records_def c consume_eq split: option.splits read_end.splits)
  qed
qed

lemma stats_ready_New: "stats_ready New"
  by (simp add: stats_ready_def New_def PhaseNames_def)

text \<open>
  C10: \<open>LoadJSONL\<close> on an aggregator made by \<open>New\<close>. When the file cannot be
  opened, the error is returned and nothing is counted. A chunk that does not parse leaves
  the aggregator as it is. Otherwise the aggregator ends up as if exactly the results
  decoded from the well-formed chunks had been added, and the error returned is the
  reader's own: none at end of file, the read error otherwise. Malformed content never
  produces an error.
\<close>

theorem LoadJSONL_skips_malformed:
  assumes "stats_ready a"
  shows "LoadJSONL rnd unmarshal (Inl err) a = Some (a, Some err)
     \<and> (unmarshal line = None \<longrightarrow> consume rnd unmarshal a line = Some a)
     \<and> (\<exists>a'. addMany rnd a (records unmarshal (content f)) = Some a'
              \<and> LoadJSONL rnd unmarshal (Inr f) a =
                    Some (a', case ending f of EOF \<Rightarrow> None | ReadError e \<Rightarrow> Some e))"
proof -
  obtain a' where a': "addMany rnd a (records unmarshal (content f)) = Some a'"
    using addMany_ready [OF assms] by blast
  then have "LoadJSONL rnd unmarshal (Inr f) a =
      Some (a', case ending f of EOF \<Rightarrow> None | ReadError e \<Rightarrow> Some e)"
    by (simp add: LoadJSONL_def readLoop_eq)
  with a' show ?thesis
    by (simp add: LoadJSONL_def consume_def)
qed

lemma records_exampleFile:
  "records unmarshalEmptyObject (content exampleFile) = [zeroResult, zeroResult]"
proof -
  have 1: "chunks ''{}'' = [''{}'']"
    by (subst chunks.simps) (simp add: ReadBytes_def)
  have 2: "chunks (''not json'' @ [CHR 0x0A] @ ''{}'') = [''not json'' @ [CHR 0x0A], ''{}'']"
    by (subst chunks.simps) (simp add: ReadBytes_def 1)
  have 3: "chunks (content exampleFile) =
      [''{}'' @ [CHR 0x0A], ''not json'' @ [CHR 0x0A], ''{}'']"
    using 2 by (subst chunks.simps) (simp add: ReadBytes_def exampleFile_def)
  show ?thesis
    by (simp add: records_def 3 List.map_filter_def unmarshalEmptyObject_def)
qed

text \<open>
  An example: a file of three chunks, the middle one malformed, loads two results without
  an error.
\<close>

theorem LoadJSONL_skips_malformed_witness:
  "stats_ready New
   \<and> unmarshalEmptyObject ''not json'' = None
   \<and> consume id unmarshalEmptyObject New ''not json'' = Some New
   \<and> LoadJSONL id unmarshalEmptyObject (Inl ''no such file'') New
       = Some (New, Some ''no such file'')
   \<and> records unmarshalEmptyObject (content exampleFile) = [zeroResult, zeroResult]
   \<and> map_option snd (LoadJSONL id unmarshalEmptyObject (Inr exampleFile) New) = Some None"
proof -
  have u: "unmarshalEmptyObject ''not json'' = None"
    by (simp add: unmarshalEmptyObject_def)
  have e: "ending exampleFile = EOF"
    by (simp add: exampleFile_def)
  show ?thesis
    using LoadJSONL_skips_malformed [OF stats_ready_New,
        of id unmarshalEmptyObject "''no such file''" "''not json''" exampleFile]
    by (auto simp: stats_ready_New u e records_exampleFile)
qed

lemma count_exampleFile:
  "map_option (\<lambda>r. count (fst r)) (LoadJSONL id unmarshalEmptyObject (Inr exampleFile) New)
     = Some 2"
  by (simp add: LoadJSONL_def readLoop_eq records_exampleFile Aggregator_Add_def update_def
      New_def PhaseNames_def countStatus_def zeroResult_def zeroPhases_def Let_def
      f64_of_int64_def Milliseconds_def sdiv64_def)

section \<open>Properties of the request tracer\<close>


text \<open>
  The earlier \<open>classifyError\<close> stays within the same labels, tests in the same order,
  and never answers ttfb.
\<close>

lemma classifyError_v1_taxonomy:
  "classifyError_v1 err \<in> set taxonomy \<and> classifyError_v1 err \<noteq> ''ttfb''
   \<and> (classifyError_v1 err = ''timeout'') = is_timeout err
   \<and> (classifyError_v1 err = ''dns'') =
       (\<not> is_timeout err \<and> Contains (message err) ''no such host'')
   \<and> (classifyError_v1 err = ''connect'') =
       (\<not> is_timeout err \<and> \<not> Contains (message err) ''no such host''
        \<and> Contains (message err) ''connection refused'')
   \<and> (classifyError_v1 err = ''tls'') =
       (\<not> is_timeout err \<and> \<not> Contains (message err) ''no such host''
        \<and> \<not> Contains (message err) ''connection refused'' \<and> Contains (message err) ''tls'')"
  by (simp add: classifyError_v1_def taxonomy_def)

lemma classifyError_nonempty: "classifyError err \<noteq> []"
  by (simp add: classifyError_def Let_def)

lemma doRequest_error_phase:
  "(case returned call of
      Inl err \<Rightarrow> Error (doRequest start call) = classifyError err
                 \<and> FailPhase (doRequest start call) = classifyError err
    | Inr st \<Rightarrow> Error (doRequest start call) = [] \<and> FailPhase (doRequest start call) = [])"
  by (simp add: doRequest_def zeroResult_def Let_def split: prod.splits sum.splits)

lemma doRequest_error_xor_phase:
  "(Error (doRequest start call) = [] \<and> FailPhase (doRequest start call) = [])
   \<noteq> (Error (doRequest start call) \<noteq> [] \<and> FailPhase (doRequest start call) \<noteq> []
       \<and> FailPhase (doRequest start call) = Error (doRequest start call))"
  using doRequest_error_phase [of start call] classifyError_nonempty
  by (cases "returned call") auto

text \<open>
  C1: every result of the tracer has either an empty error, or a non-empty error and a
  failing-phase tag equal to it. The \<open>doRequest\<close> that feeds the live statistics
  satisfies this (\<open>doRequest_error_xor_phase\<close>). The earlier \<open>doRequest\<close> does not:
  for a refused connection it returns the error label connect with an empty
  failing-phase tag.
\<close>

theorem doRequest_v1_no_fail_phase:
  "Error (doRequest_v1 0 refusedCall) = ''connect''
   \<and> FailPhase (doRequest_v1 0 refusedCall) = []"
  by (simp add: doRequest_v1_def refusedCall_def classifyError_v1_def zeroResult_def Let_def
      split: prod.splits)

lemma doRequest_refused:
  "Error (doRequest 0 refusedCall) = ''connect''
   \<and> FailPhase (doRequest 0 refusedCall) = ''connect''"
  by (simp add: doRequest_def refusedCall_def classifyError_def zeroResult_def Let_def
      split: prod.splits)

lemma sint_sub_nonneg:
  fixes a b :: int64
  assumes "0 \<le> sint a" "sint a \<le> sint b"
  shows "sint (b - a) = sint b - sint a"
proof -
  have "sint b < 2 ^ 63"
    using sint_lt [of b] by simp
  with assms have r: "- (2 ^ 63) \<le> sint b - sint a" "sint b - sint a < 2 ^ 63"
    by simp_all
  have "sint (b - a) = signed_take_bit 63 (sint b - sint a)"
    by (simp add: sint_word_ariths)
  with r show ?thesis
    by (simp add: signed_take_bit_int_eq_self)
qed

lemma hook_within:
  assumes "phases_within now p" "now \<le>s t"
  shows "phases_within t (fst (hook (p, re) (e, t)))"
  using assms
  by (cases e) (auto simp: phases_within_def word_sle_eq sint_sub_nonneg)

lemma foldl_hook_within:
  "phases_within now p \<Longrightarrow> clock_ok now evs \<Longrightarrow>
   \<exists>now'. phases_within now' (fst (foldl hook (p, re) evs))"
proof (induction evs arbitrary: now p re)
  case Nil
  then show ?case by auto
next
  case (Cons ev evs)
  obtain e t where ev: "ev = (e, t)" by (cases ev)
  obtain p' re' where h: "hook (p, re) (e, t) = (p', re')" by (cases "hook (p, re) (e, t)")
  from Cons.prems ev have "now \<le>s t" "clock_ok t evs" by simp_all
  with Cons.prems(1) h have "phases_within t p'"
    using hook_within [of now p t re e] by simp
  with \<open>clock_ok t evs\<close> show ?case
    using Cons.IH [of t p' re'] by (simp add: ev h)
qed

lemma Phases_doRequest:
  "Phases (doRequest start call) =
     (fst (foldl hook (zeroPhases, False) (fired call)))\<lparr>Total := elapsed call\<rparr>"
  by (simp add: doRequest_def zeroResult_def Let_def split: prod.splits sum.splits)

lemma Phases_doRequest_v1: "Phases (doRequest_v1 start call) = Phases (doRequest start call)"
  by (simp add: doRequest_def doRequest_v1_def zeroResult_def Let_def split: prod.splits sum.splits)

lemma foldl_hook_DNS:
  "DNSStart \<notin> fst ` set evs \<Longrightarrow> DNSDone \<notin> fst ` set evs \<Longrightarrow>
   DNS (fst (foldl hook (p, re) evs)) = DNS p"
proof (induction evs arbitrary: p re)
  case Nil
  then show ?case by simp
next
  case (Cons ev evs)
  obtain e t where ev: "ev = (e, t)" by (cases ev)
  with Cons.prems have "e \<noteq> DNSStart" "e \<noteq> DNSDone" by auto
  then have "DNS (fst (hook (p, re) (e, t))) = DNS p" by (cases e) auto
  with Cons show ?case by (cases "hook (p, re) (e, t)") (auto simp: ev)
qed

lemma foldl_hook_Connect:
  "ConnectStart \<notin> fst ` set evs \<Longrightarrow> ConnectDone True \<notin> fst ` set evs \<Longrightarrow>
   Connect (fst (foldl hook (p, re) evs)) = Connect p"
proof (induction evs arbitrary: p re)
  case Nil
  then show ?case by simp
next
  case (Cons ev evs)
  obtain e t where ev: "ev = (e, t)" by (cases ev)
  with Cons.prems have "e \<noteq> ConnectStart" "e \<noteq> ConnectDone True" by auto
  then have "Connect (fst (hook (p, re) (e, t))) = Connect p" by (cases e) auto
  with Cons show ?case by (cases "hook (p, re) (e, t)") (auto simp: ev)
qed

lemma foldl_hook_TLS:
  "TLSHandshakeStart \<notin> fst ` set evs \<Longrightarrow> TLSHandshakeDone \<notin> fst ` set evs \<Longrightarrow>
   TLS (fst (foldl hook (p, re) evs)) = TLS p"
proof (induction evs arbitrary: p re)
  case Nil
  then show ?case by simp
next
  case (Cons ev evs)
  obtain e t where ev: "ev = (e, t)" by (cases ev)
  with Cons.prems have "e \<noteq> TLSHandshakeStart" "e \<noteq> TLSHandshakeDone" by auto
  then have "TLS (fst (hook (p, re) (e, t))) = TLS p" by (cases e) auto
  with Cons show ?case by (cases "hook (p, re) (e, t)") (auto simp: ev)
qed

lemma foldl_hook_TTFB:
  "GotFirstResponseByte \<notin> fst ` set evs \<Longrightarrow>
   TTFB (fst (foldl hook (p, re) evs)) = TTFB p"
proof (induction evs arbitrary: p re)
  case Nil
  then show ?case by simp
next
  case (Cons ev evs)
  obtain e t where ev: "ev = (e, t)" by (cases ev)
  with Cons.prems have "e \<noteq> GotFirstResponseByte" by auto
  then have "TTFB (fst (hook (p, re) (e, t))) = TTFB p" by (cases e) auto
  with Cons show ?case by (cases "hook (p, re) (e, t)") (auto simp: ev)
qed

text \<open>
  C9: in every result of the tracer the five phase durations are not negative, provided
  the clock readings are not negative and never decrease; and a phase whose hooks did not
  fire during the call is recorded as zero.
\<close>

theorem doRequest_phases:
  fixes start :: int and call :: http_call
  defines "p \<equiv> Phases (doRequest start call)"
  shows "(clock_ok 0 (fired call) \<and> 0 \<le>s elapsed call \<longrightarrow>
            0 \<le>s DNS p \<and> 0 \<le>s Connect p \<and> 0 \<le>s TLS p \<and> 0 \<le>s TTFB p \<and> 0 \<le>s Total p)
       \<and> (\<not> fires DNSStart call \<and> \<not> fires DNSDone call \<longrightarrow> DNS p = 0)
       \<and> (\<not> fires ConnectStart call \<and> \<not> fires (ConnectDone True) call \<longrightarrow> Connect p = 0)
       \<and> (\<not> fires TLSHandshakeStart call \<and> \<not> fires TLSHandshakeDone call \<longrightarrow> TLS p = 0)
       \<and> (\<not> fires GotFirstResponseByte call \<longrightarrow> TTFB p = 0)"
proof -
  let ?q = "fst (foldl hook (zeroPhases, False) (fired call))"
  have p: "p = ?q\<lparr>Total := elapsed call\<rparr>"
    by (simp add: p_def Phases_doRequest)
  have z: "phases_within 0 zeroPhases"
    by (simp add: phases_within_def zeroPhases_def)
  have nonneg: "0 \<le>s DNS p \<and> 0 \<le>s Connect p \<and> 0 \<le>s TLS p \<and> 0 \<le>s TTFB p \<and> 0 \<le>s Total p"
    if c: "clock_ok 0 (fired call)" and e: "0 \<le>s elapsed call"
  proof -
    obtain now' where "phases_within now' ?q"
      using foldl_hook_within [OF z c] by blast
    with e show ?thesis
      by (simp add: p phases_within_def)
  qed
  have dns: "DNS p = 0" if "\<not> fires DNSStart call" "\<not> fires DNSDone call"
    using that foldl_hook_DNS [of "fired call" zeroPhases False]
    by (simp add: p fires_def zeroPhases_def)
  have con: "Connect p = 0" if "\<not> fires ConnectStart call" "\<not> fires (ConnectDone True) call"
    using that foldl_hook_Connect [of "fired call" zeroPhases False]
    by (simp add: p fires_def zeroPhases_def)
  have tls: "TLS p = 0" if "\<not> fires TLSHandshakeStart call" "\<not> fires TLSHandshakeDone call"
    using that foldl_hook_TLS [of "fired call" zeroPhases False]
    by (simp add: p fires_def zeroPhases_def)
  have ttfb: "TTFB p = 0" if "\<not> fires GotFirstResponseByte call"
    using that foldl_hook_TTFB [of "fired call" zeroPhases False]
    by (simp add: p fires_def zeroPhases_def)
  from nonneg dns con tls ttfb show ?thesis by blast
qed

text \<open>
  An example: name resolution, a connection without TLS and a first byte, on a clock
  that never runs backwards. The TLS phase stays zero.
\<close>

theorem doRequest_phases_witness:
  "clock_ok 0 (fired plainCall) \<and> 0 \<le>s elapsed plainCall
   \<and> 0 \<le>s DNS (Phases (doRequest 0 plainCall))
   \<and> 0 \<le>s Connect (Phases (doRequest 0 plainCall))
   \<and> 0 \<le>s TTFB (Phases (doRequest 0 plainCall))
   \<and> 0 \<le>s Total (Phases (doRequest 0 plainCall))
   \<and> \<not> fires TLSHandshakeStart plainCall \<and> \<not> fires TLSHandshakeDone plainCall
   \<and> TLS (Phases (doRequest 0 plainCall)) = 0"
proof -
  have c: "clock_ok 0 (fired plainCall) \<and> 0 \<le>s elapsed plainCall"
    by (simp add: plainCall_def word_sle_eq)
  have f: "\<not> fires TLSHandshakeStart plainCall \<and> \<not> fires TLSHandshakeDone plainCall"
    by (simp add: plainCall_def fires_def)
  from c f show ?thesis
    using doRequest_phases [of plainCall 0] by blast
qed

section \<open>Properties of the run orchestrator\<close>

lemma main_step_idle:
  assumes "main_step cfg qs c s = Some s'" "before_scheduler (main s) \<longrightarrow> idle s"
  shows "before_scheduler (main s') \<longrightarrow> idle s'"
  using assms
  by (cases "main s"; cases c)
    (auto simp: main_step_def idle_def panicMain_def split: if_splits option.splits)

lemma worker_step_idle:
  assumes "worker_step cfg i c s = Some s'" "before_scheduler (main s) \<longrightarrow> idle s"
  shows "before_scheduler (main s') \<longrightarrow> idle s'"
proof (cases "before_scheduler (main s)")
  case True
  with assms(2) have "idle s" by simp
  then have "i < length (workers s) \<Longrightarrow> workers s ! i = W_Recv" "workCh s = []" "\<not> workClosed s"
    by (auto simp: idle_def list_all_length)
  with assms(1) show ?thesis
    by (cases c) (auto simp: worker_step_def split: if_splits)
next
  case False
  have "main s' = main s \<or> main s' = M_Panicked"
    using assms(1)
    by (cases c)
      (auto simp: worker_step_def split: if_splits worker_pc.splits list.splits)
  with False show ?thesis by auto
qed

lemma sink_step_idle:
  assumes "sink_step c s = Some s'" "before_scheduler (main s) \<longrightarrow> idle s"
  shows "before_scheduler (main s') \<longrightarrow> idle s'"
proof (cases "before_scheduler (main s)")
  case True
  with assms(2) have "sink s = S_NotStarted" by (simp add: idle_def)
  with assms(1) show ?thesis by (simp add: sink_step_def)
next
  case False
  have "main s' = main s"
    using assms(1)
    by (cases c) (auto simp: sink_step_def split: if_splits sink_pc.splits list.splits)
  with False show ?thesis by simp
qed

lemma step_idle:
  assumes "step cfg qs l s = Some s'" "before_scheduler (main s) \<longrightarrow> idle s"
  shows "before_scheduler (main s') \<longrightarrow> idle s'"
proof (cases l)
  case (Main c)
  with assms show ?thesis
    using main_step_idle [of cfg qs c s s'] by (simp add: step_def split: if_splits)
next
  case (Worker i c)
  with assms show ?thesis
    using worker_step_idle [of cfg i c s s'] by (simp add: step_def split: if_splits)
next
  case (Sink c)
  with assms show ?thesis
    using sink_step_idle [of c s s'] by (simp add: step_def split: if_splits)
next
  case Cancel
  with assms show ?thesis
    by (auto simp: step_def idle_def split: if_splits)
qed

lemma run_idle:
  "run cfg qs ls s = Some s' \<Longrightarrow> (before_scheduler (main s) \<longrightarrow> idle s) \<Longrightarrow>
   before_scheduler (main s') \<longrightarrow> idle s'"
proof (induction ls arbitrary: s)
  case Nil
  then show ?case by simp
next
  case (Cons l ls)
  then obtain s1 where s1: "step cfg qs l s = Some s1" "run cfg qs ls s1 = Some s'"
    by (auto split: option.splits)
  from step_idle [OF s1(1) Cons.prems(2)] Cons.IH [OF s1(2)] show ?case by blast
qed

lemma main_step_spawned:
  assumes "main_step cfg qs c s = Some s'" "spawned cfg s"
  shows "spawned cfg s'"
  using assms
  by (cases "main s"; cases c)
    (auto simp: main_step_def spawned_def panicMain_def split: if_splits option.splits)

lemma worker_step_frame:
  assumes "worker_step cfg i c s = Some s'"
  shows "length (workers s') = length (workers s) \<and> (main s' = main s \<or> main s' = M_Panicked)"
  using assms
  by (cases c) (auto simp: worker_step_def split: if_splits worker_pc.splits list.splits)

lemma sink_step_frame:
  assumes "sink_step c s = Some s'"
  shows "workers s' = workers s \<and> main s' = main s"
  using assms
  by (cases c) (auto simp: sink_step_def split: if_splits sink_pc.splits list.splits)

lemma step_spawned:
  assumes "step cfg qs l s = Some s'" "spawned cfg s"
  shows "spawned cfg s'"
proof (cases l)
  case (Main c)
  with assms show ?thesis
    using main_step_spawned [of cfg qs c s s'] by (simp add: step_def split: if_splits)
next
  case (Worker i c)
  with assms have "worker_step cfg i c s = Some s'"
    by (simp add: step_def split: if_splits)
  from worker_step_frame [OF this] assms(2) show ?thesis
    by (auto simp: spawned_def)
next
  case (Sink c)
  with assms have "sink_step c s = Some s'"
    by (simp add: step_def split: if_splits)
  from sink_step_frame [OF this] assms(2) show ?thesis
    by (auto simp: spawned_def)
next
  case Cancel
  with assms show ?thesis
    by (auto simp: step_def spawned_def split: if_splits)
qed

lemma run_spawned:
  "run cfg qs ls s = Some s' \<Longrightarrow> spawned cfg s \<Longrightarrow> spawned cfg s'"
proof (induction ls arbitrary: s)
  case Nil
  then show ?case by simp
next
  case (Cons l ls)
  then obtain s1 where s1: "step cfg qs l s = Some s1" "run cfg qs ls s1 = Some s'"
    by (auto split: option.splits)
  from Cons.IH [OF s1(2) step_spawned [OF s1(1) Cons.prems(2)]] show ?case .
qed

lemma all_Recv_replicate:
  "list_all (\<lambda>w. w = W_Recv) ws \<Longrightarrow> ws = replicate (length ws) W_Recv"
  by (induction ws) auto

lemma Run_openFails:
  "Run smallConfig 0 openFails =
     Some (initial\<lparr>main := M_Returned (Some OpenOutputErr), workers := [W_Recv, W_Recv]\<rparr>)"
  by (simp add: Run_def openFails_def initial_def step_def main_step_def smallConfig_def
      DefaultConfig_def word_sless_alt)

text \<open>
  C2, as stated, fails: with two workers configured, when \<open>os.Create(outPath)\<close> fails
  \<open>Run\<close> returns the error with both workers already started.
\<close>

theorem Run_open_failure_counterexample:
  "map_option main (Run smallConfig 0 openFails) = Some (M_Returned (Some OpenOutputErr))
   \<and> map_option workers (Run smallConfig 0 openFails) = Some [W_Recv, W_Recv]"
  by (simp add: Run_openFails)

text \<open>
  C2, amended: when opening either output destination fails, \<open>Run\<close> returns an error.
  Whenever it has returned such an error, the configured number of workers have been
  started and all wait for a ticket, no ticket was ever scheduled, no request was executed,
  the sink was never started and nothing was written.
\<close>

theorem Run_open_failure:
  assumes "Run cfg queueSize schedule = Some s"
  shows "(main s = M_CreateOut \<longrightarrow>
            map_option main (step cfg queueSize (Main Fail) s)
              = Some (M_Returned (Some OpenOutputErr)))
       \<and> (main s = M_CreateProgress \<longrightarrow>
            map_option main (step cfg queueSize (Main Fail) s)
              = Some (M_Returned (Some OpenProgressErr)))
       \<and> (main s = M_Returned (Some OpenOutputErr) \<or> main s = M_Returned (Some OpenProgressErr)
            \<longrightarrow> requests s = 0 \<and> workCh s = [] \<and> sched_count s = 0 \<and> sink s = S_NotStarted
              \<and> outLines s = [] \<and> progressLog s = []
              \<and> workers s = replicate (nat (sint (Concurrency (Load cfg)))) W_Recv)"
proof -
  have r: "run cfg queueSize schedule initial = Some s"
    using assms by (simp add: Run_def)
  have i: "before_scheduler (main s) \<longrightarrow> idle s"
    using run_idle [OF r] by (simp add: initial_def idle_def)
  have n: "spawned cfg s"
    using run_spawned [OF r] by (simp add: initial_def spawned_def)
  have a: "map_option main (step cfg queueSize (Main Fail) s)
      = Some (M_Returned (Some OpenOutputErr))" if "main s = M_CreateOut"
    using that by (simp add: step_def main_step_def)
  have b: "map_option main (step cfg queueSize (Main Fail) s)
      = Some (M_Returned (Some OpenProgressErr))" if "main s = M_CreateProgress"
    using that by (simp add: step_def main_step_def)
  have c: "requests s = 0 \<and> workCh s = [] \<and> sched_count s = 0 \<and> sink s = S_NotStarted
      \<and> outLines s = [] \<and> progressLog s = []
      \<and> workers s = replicate (nat (sint (Concurrency (Load cfg)))) W_Recv"
    if m: "main s = M_Returned (Some OpenOutputErr) \<or> main s = M_Returned (Some OpenProgressErr)"
  proof -
    from m i have "idle s" by auto
    moreover from m n have "length (workers s) = nat (sint (Concurrency (Load cfg)))"
      by (auto simp: spawned_def)
    ultimately show ?thesis
      using all_Recv_replicate [of "workers s"] by (simp add: idle_def)
  qed
  from a b c show ?thesis by blast
qed

theorem Run_open_failure_witness:
  "Run smallConfig 0 openFails
     = Some (initial\<lparr>main := M_Returned (Some OpenOutputErr), workers := [W_Recv, W_Recv]\<rparr>)
   \<and> requests (initial\<lparr>main := M_Returned (Some OpenOutputErr), workers := [W_Recv, W_Recv]\<rparr>) = 0
   \<and> sink (initial\<lparr>main := M_Returned (Some OpenOutputErr), workers := [W_Recv, W_Recv]\<rparr>)
       = S_NotStarted
   \<and> nat (sint (Concurrency (Load smallConfig))) = 2"
proof -
  have n: "nat (sint (Concurrency (Load smallConfig))) = 2"
    by (simp add: smallConfig_def DefaultConfig_def)
  from Run_open_failure [OF Run_openFails] show ?thesis
    by (simp add: Run_openFails n)
qed

lemma main_step_joined:
  assumes "main_step cfg qs c s = Some s'" "joined s"
  shows "joined s'"
  using assms
  by (cases "main s"; cases c)
    (auto simp: main_step_def joined_def panicMain_def split: if_splits option.splits)

lemma worker_step_joined:
  assumes "worker_step cfg i c s = Some s'" "joined s"
  shows "joined s'"
proof (cases "after_join (main s)")
  case True
  with assms(2) have "i < length (workers s) \<Longrightarrow> workers s ! i = W_Exited"
    by (auto simp: joined_def list_all_length)
  with assms(1) show ?thesis
    by (auto simp: worker_step_def split: if_splits)
next
  case False
  have "(main s' = main s \<or> main s' = M_Panicked) \<and> resultsClosed s' = resultsClosed s"
    using assms(1)
    by (cases c) (auto simp: worker_step_def split: if_splits worker_pc.splits list.splits)
  with False assms(2) show ?thesis
    by (auto simp: joined_def)
qed

lemma sink_step_joined:
  assumes "sink_step c s = Some s'" "joined s"
  shows "joined s'"
proof -
  have "workers s' = workers s \<and> main s' = main s \<and> resultsClosed s' = resultsClosed s"
    using assms(1)
    by (cases c) (auto simp: sink_step_def split: if_splits sink_pc.splits list.splits)
  with assms(2) show ?thesis
    by (simp add: joined_def)
qed

lemma step_joined:
  assumes "step cfg qs l s = Some s'" "joined s"
  shows "joined s'"
proof (cases l)
  case (Main c)
  with assms show ?thesis
    using main_step_joined [of cfg qs c s s'] by (simp add: step_def split: if_splits)
next
  case (Worker i c)
  with assms show ?thesis
    using worker_step_joined [of cfg i c s s'] by (simp add: step_def split: if_splits)
next
  case (Sink c)
  with assms show ?thesis
    using sink_step_joined [of c s s'] by (simp add: step_def split: if_splits)
next
  case Cancel
  with assms show ?thesis
    by (auto simp: step_def joined_def split: if_splits)
qed

lemma run_joined:
  "run cfg qs ls s = Some s' \<Longrightarrow> joined s \<Longrightarrow> joined s'"
proof (induction ls arbitrary: s)
  case Nil
  then show ?case by simp
next
  case (Cons l ls)
  then obtain s1 where s1: "step cfg qs l s = Some s1" "run cfg qs ls s1 = Some s'"
    by (auto split: option.splits)
  from Cons.IH [OF s1(2) step_joined [OF s1(1) Cons.prems(2)]] show ?case .
qed

lemma Run_join_before_close:
  assumes "Run cfg queueSize schedule = Some s"
  shows "(after_join (main s) \<longrightarrow> list_all (\<lambda>w. w = W_Exited) (workers s))
       \<and> (main s = M_Returned None \<longrightarrow> resultsClosed s)
       \<and> (resultsClosed s \<longrightarrow> list_all (\<lambda>w. w = W_Exited) (workers s) \<or> main s = M_Panicked)"
proof -
  have "joined s"
    using run_joined [of cfg queueSize schedule initial s] assms
    by (simp add: Run_def joined_def initial_def)
  then show ?thesis by (auto simp: joined_def)
qed

lemma sink_step_collector:
  assumes "sink_step c s = Some s'"
    and "sent (collector s) = success (collector s) + fail (collector s)"
  shows "sent (collector s') = success (collector s') + fail (collector s')"
  using assms
  by (cases c)
    (auto simp: sink_step_def Add_sent Add_success Add_fail
      split: if_splits sink_pc.splits list.splits)

lemma step_collector:
  assumes "step cfg qs l s = Some s'"
    and "sent (collector s) = success (collector s) + fail (collector s)"
  shows "sent (collector s') = success (collector s') + fail (collector s')"
proof (cases l)
  case (Main c)
  with assms(1) have "collector s' = collector s"
    by (cases "main s"; cases c)
      (auto simp: step_def main_step_def panicMain_def split: if_splits option.splits)
  with assms(2) show ?thesis by simp
next
  case (Worker i c)
  with assms(1) have "collector s' = collector s"
    by (cases c)
      (auto simp: step_def worker_step_def split: if_splits worker_pc.splits list.splits)
  with assms(2) show ?thesis by simp
next
  case (Sink c)
  with assms show ?thesis
    using sink_step_collector [of c s s'] by (simp add: step_def split: if_splits)
next
  case Cancel
  with assms show ?thesis
    by (auto simp: step_def split: if_splits)
qed

lemma Run_collector_balance:
  assumes "Run cfg queueSize schedule = Some s"
  shows "sent (collector s) = success (collector s) + fail (collector s)"
proof -
  have "run cfg queueSize ls s0 = Some s1 \<Longrightarrow>
      sent (collector s0) = success (collector s0) + fail (collector s0) \<Longrightarrow>
      sent (collector s1) = success (collector s1) + fail (collector s1)" for ls s0 s1
  proof (induction ls arbitrary: s0)
    case Nil
    then show ?case by simp
  next
    case (Cons l ls)
    then obtain s2 where s2: "step cfg queueSize l s0 = Some s2"
        "run cfg queueSize ls s2 = Some s1"
      by (auto split: option.splits)
    from Cons.IH [OF s2(2) step_collector [OF s2(1) Cons.prems(2)]] show ?case .
  qed
  from this [of schedule initial s] assms show ?thesis
    by (simp add: Run_def initial_def newStats_def)
qed

text \<open>
  C3: \<open>Run\<close> returns only after every worker has exited and the results channel is
  closed (\<open>Run_join_before_close\<close>), but it does not wait for the sink. In the run
  \<open>earlyReturn\<close> it has returned, and its deferred calls have closed both files, while
  the sink still has a result to take and has written no final line; when the sink then
  finishes, neither the record nor any progress line reaches a file.
\<close>

theorem Run_returns_before_final_flush:
  "Run smallConfig 0 earlyReturn =
     Some (initial\<lparr>main := M_Returned None, sched_count := 1,
             workers := [W_Exited, W_Exited], sink := S_Select, workClosed := True,
             results := [doRequest 0 plainCall], resultsClosed := True,
             outFile := F_Closed, progressFile := F_Closed, requests := 1\<rparr>)
   \<and> Run smallConfig 0 (earlyReturn @ sinkFinishes) =
     Some (initial\<lparr>main := M_Returned None, sched_count := 1,
             workers := [W_Exited, W_Exited], sink := S_Exited, workClosed := True,
             results := [], resultsClosed := True,
             collector := StatsCollector_Add newStats (doRequest 0 plainCall),
             outFile := F_Closed, outLines := [], progressFile := F_Closed,
             progressLog := [], requests := 1\<rparr>)"
  by (simp add: Run_def earlyReturn_def sinkFinishes_def initial_def step_def main_step_def
      worker_step_def sink_step_def writeTo_def smallConfig_def DefaultConfig_def
      schedulerInterval_def sdiv64_def signed_divide_int_def word_sless_alt word_sle_eq)

end
